theory Spec2Isabelle
  imports Main "HOL-Library.Sublist"
begin

section \<open>JavaScript values used by the bot\<close>

text \<open>
  Texts are \<^typ>\<open>string\<close>s holding the UTF-8 bytes of the JavaScript string, so the
  emoji of the source are three or four bytes long. A value that may be
  \<^verbatim>\<open>undefined\<close> or \<^verbatim>\<open>null\<close> is an \<^typ>\<open>'a option\<close>.
\<close>

text \<open>Truthiness of a \<^verbatim>\<open>string | undefined\<close>: \<^verbatim>\<open>undefined\<close> and the empty
  string are falsy.\<close>

definition truthy :: "string option \<Rightarrow> bool" where
  "truthy v = (case v of None \<Rightarrow> False | Some t \<Rightarrow> t \<noteq> [])"

text \<open>\<^verbatim>\<open>v ? f(v) : d\<close> on an optional string.\<close>

definition if_truthy :: "string option \<Rightarrow> (string \<Rightarrow> 'a) \<Rightarrow> 'a \<Rightarrow> 'a" where
  "if_truthy v f d = (case v of None \<Rightarrow> d | Some t \<Rightarrow> if t = [] then d else f t)"

text \<open>\<^verbatim>\<open>v || ""\<close> on an optional string.\<close>

definition or_empty :: "string option \<Rightarrow> string" where
  "or_empty v = (case v of None \<Rightarrow> [] | Some t \<Rightarrow> t)"

text \<open>\<^verbatim>\<open>xs || []\<close> on an optional array.\<close>

definition or_nil :: "'a list option \<Rightarrow> 'a list" where
  "or_nil v = (case v of None \<Rightarrow> [] | Some xs \<Rightarrow> xs)"

text \<open>
  \<^verbatim>\<open>toLowerCase\<close>, on the ASCII letters. A character outside ASCII stays as it is here;
  in JavaScript it may change, but never into one of the letters of
  \<^verbatim>\<open>ez\<close>, \<^verbatim>\<open>medium\<close> or \<^verbatim>\<open>large\<close>, the strings the result is compared with.
  The same function compares a text with the letters of a pattern under the \<^verbatim>\<open>i\<close>
  flag, where a character outside ASCII matches no ASCII letter.
\<close>

definition toLowerChar :: "char \<Rightarrow> char" where
  "toLowerChar c =
     (case map_of (zip ''ABCDEFGHIJKLMNOPQRSTUVWXYZ'' ''abcdefghijklmnopqrstuvwxyz'') c of
        None \<Rightarrow> c
      | Some l \<Rightarrow> l)"

definition toLowerCase :: "string \<Rightarrow> string" where
  "toLowerCase t = map toLowerChar t"

definition is_digit :: "char \<Rightarrow> bool" where
  "is_digit c = (c \<in> set ''0123456789'')"

definition is_upper :: "char \<Rightarrow> bool" where
  "is_upper c = (c \<in> set ''ABCDEFGHIJKLMNOPQRSTUVWXYZ'')"

definition is_lower :: "char \<Rightarrow> bool" where
  "is_lower c = (c \<in> set ''abcdefghijklmnopqrstuvwxyz'')"

text \<open>The character class \<^verbatim>\<open>[A-Z0-9]\<close>, as it is and under the \<^verbatim>\<open>i\<close> flag.\<close>

definition upper_or_digit :: "char \<Rightarrow> bool" where
  "upper_or_digit c = (is_upper c \<or> is_digit c)"

definition alnum_ci :: "char \<Rightarrow> bool" where
  "alnum_ci c = (is_upper c \<or> is_lower c \<or> is_digit c)"

text \<open>
  The class \<^verbatim>\<open>\s\<close>: the number of bytes of the white space or line terminator
  character at the head of a text, 0 when there is none. These are U+0009 to U+000D,
  U+0020, U+00A0, U+1680, U+2000 to U+200A, U+2028, U+2029, U+202F, U+205F, U+3000 and
  U+FEFF, in UTF-8.
\<close>

definition white_space_len :: "string \<Rightarrow> nat" where
  "white_space_len t =
     (case t of
        [] \<Rightarrow> 0
      | c1 # r1 \<Rightarrow>
          if c1 \<in> {CHR 0x09, CHR 0x0A, CHR 0x0B, CHR 0x0C, CHR 0x0D, CHR 0x20} then 1
          else (case r1 of
            [] \<Rightarrow> 0
          | c2 # r2 \<Rightarrow>
              if c1 = CHR 0xC2 \<and> c2 = CHR 0xA0 then 2
              else (case r2 of
                [] \<Rightarrow> 0
              | c3 # r3 \<Rightarrow>
                  if c1 = CHR 0xE1 \<and> c2 = CHR 0x9A \<and> c3 = CHR 0x80 then 3
                  else if c1 = CHR 0xE2 \<and> c2 = CHR 0x80 \<and>
                    c3 \<in> {CHR 0x80, CHR 0x81, CHR 0x82, CHR 0x83, CHR 0x84, CHR 0x85,
                          CHR 0x86, CHR 0x87, CHR 0x88, CHR 0x89, CHR 0x8A,
                          CHR 0xA8, CHR 0xA9, CHR 0xAF} then 3
                  else if c1 = CHR 0xE2 \<and> c2 = CHR 0x81 \<and> c3 = CHR 0x9F then 3
                  else if c1 = CHR 0xE3 \<and> c2 = CHR 0x80 \<and> c3 = CHR 0x80 then 3
                  else if c1 = CHR 0xEF \<and> c2 = CHR 0xBB \<and> c3 = CHR 0xBF then 3
                  else 0)))"

lemma white_space_len_le: "white_space_len t \<le> length t"
  by (simp add: white_space_len_def split: list.splits)

text \<open>\<^verbatim>\<open>\s*\<close>: the text after the longest run of white space at its head.\<close>

function skip_white_space :: "string \<Rightarrow> string" where
  "skip_white_space t =
     (if white_space_len t = 0 then t else skip_white_space (drop (white_space_len t) t))"
  by pat_completeness auto
termination
proof (relation "measure length")
  show "wf (measure length)" by simp
next
  fix t :: string
  assume "white_space_len t \<noteq> 0"
  moreover have "white_space_len t \<le> length t" by (rule white_space_len_le)
  ultimately show "(drop (white_space_len t) t, t) \<in> measure length" by simp
qed

declare skip_white_space.simps [simp del]

text \<open>The bytes that occur in the white space characters above.\<close>

definition ws_byte :: "char \<Rightarrow> bool" where
  "ws_byte c = (c \<in> {CHR 0x09, CHR 0x0A, CHR 0x0B, CHR 0x0C, CHR 0x0D, CHR 0x20,
      CHR 0xC2, CHR 0xA0, CHR 0xE1, CHR 0x9A, CHR 0xE2, CHR 0xE3, CHR 0xEF, CHR 0xBB, CHR 0xBF,
      CHR 0x80, CHR 0x81, CHR 0x82, CHR 0x83, CHR 0x84, CHR 0x85,
      CHR 0x86, CHR 0x87, CHR 0x88, CHR 0x89, CHR 0x8A,
      CHR 0xA8, CHR 0xA9, CHR 0xAF, CHR 0x9F})"

section \<open>Message formatting and parsing\<close>

text \<open>The reactions the bot answers to (\<^verbatim>\<open>REACTIONS\<close>).\<close>

definition REACTIONS_COMMENT :: string where "REACTIONS_COMMENT = ''speech_balloon''"
definition REACTIONS_APPROVED :: string where "REACTIONS_APPROVED = ''white_check_mark''"
definition REACTIONS_MERGED :: string where "REACTIONS_MERGED = ''merged''"
definition REACTIONS_UPDATED :: string where "REACTIONS_UPDATED = ''repeat''"

text \<open>The texts of \<^verbatim>\<open>MESSAGES\<close>.\<close>

definition COMMENT_OWN :: "string \<Rightarrow> string \<Rightarrow> string" where
  "COMMENT_OWN authorId reviewerId =
     ''<@'' @ authorId @ ''>, a comment or two was left on your PR by <@'' @ reviewerId @ ''>.''"

definition COMMENT_OTHER :: string where
  "COMMENT_OTHER = ''Someone made a comment or two on this PR.''"

definition APPROVED_OWN :: "string \<Rightarrow> string" where
  "APPROVED_OWN ident = ''<@'' @ ident @ ''>, your PR has been approved, time to ship it! :shipit:''"

definition APPROVED_OTHER :: string where
  "APPROVED_OTHER = ''This PR has been approved, time to ship it! :shipit:''"

definition MERGED_WARNING :: string where
  "MERGED_WARNING =
     ''This PR entry will be deleted in 30 seconds. Remove the :merged: reaction to cancel.''"

definition MERGED_WARNING_OWN :: "string \<Rightarrow> string" where
  "MERGED_WARNING_OWN ident =
     ''<@'' @ ident @
     ''> heads up - this PR entry will be deleted in 30 seconds. Remove the :merged: reaction to cancel.''"

text \<open>\<^verbatim>\<open>formatComplexity\<close>. The emoji are U+26AA, U+1F7E8 and U+1F7E5.\<close>

definition UNKNOWN_LABEL :: string where
  "UNKNOWN_LABEL = [CHR 0xE2, CHR 0x9A, CHR 0xAA] @ '' *Unknown*''"

definition formatComplexity :: "string option \<Rightarrow> string" where
  "formatComplexity level =
     if_truthy level
       (\<lambda>level. let l = toLowerCase level in
          if l = ''ez'' then '':ez:''
          else if l = ''medium'' then [CHR 0xF0, CHR 0x9F, CHR 0x9F, CHR 0xA8] @ '' *Medium*''
          else if l = ''large'' then [CHR 0xF0, CHR 0x9F, CHR 0x9F, CHR 0xA5] @ '' *Large*''
          else UNKNOWN_LABEL)
       UNKNOWN_LABEL"

text \<open>
  The tail \<^verbatim>\<open><@([A-Z0-9]+)>\<close> of both regular expressions, matched at the head of a
  text: the captured group. The class is a parameter, for the \<^verbatim>\<open>i\<close> flag. The run
  of class characters is taken whole: a shorter one is followed by a class
  character, not by \<^verbatim>\<open>>\<close>.
\<close>

definition match_mention :: "(char \<Rightarrow> bool) \<Rightarrow> string \<Rightarrow> string option" where
  "match_mention cls t =
     (if take 2 t = ''<@'' then
        let ident = takeWhile cls (drop 2 t); rest = dropWhile cls (drop 2 t) in
        if ident \<noteq> [] \<and> take 1 rest = ''>'' then Some ident else None
      else None)"

text \<open>\<^verbatim>\<open>text.match(re)\<close> without the \<^verbatim>\<open>g\<close> flag: the match that starts leftmost.\<close>

fun first_match :: "(string \<Rightarrow> 'a option) \<Rightarrow> string \<Rightarrow> 'a option" where
  "first_match here [] = here []"
| "first_match here (c # cs) =
     (case here (c # cs) of Some a \<Rightarrow> Some a | None \<Rightarrow> first_match here cs)"

text \<open>\<^verbatim>\<open>/Author:\s*<@([A-Z0-9]+)>/i\<close> at the head of a text.\<close>

definition author_here :: "string \<Rightarrow> string option" where
  "author_here t =
     (if toLowerCase (take 7 t) = ''author:''
      then match_mention alnum_ci (skip_white_space (drop 7 t))
      else None)"

definition getAuthorIdFromText :: "string \<Rightarrow> string option" where
  "getAuthorIdFromText t = first_match author_here t"

text \<open>\<^verbatim>\<open>/left on your PR by <@([A-Z0-9]+)>/\<close> at the head of a text.\<close>

definition reviewer_here :: "string \<Rightarrow> string option" where
  "reviewer_here t =
     (if take 19 t = ''left on your PR by '' then match_mention upper_or_digit (drop 19 t)
      else None)"

definition reviewer_match :: "string \<Rightarrow> string option" where
  "reviewer_match t = first_match reviewer_here t"

text \<open>
  The text the \<^verbatim>\<open>/pr\<close> command posts, from \<^verbatim>\<open>parts[0]\<close>, the invoking user and
  \<^verbatim>\<open>parts[1]\<close>, the first two pieces of the text of the command between white space.
\<close>

definition pr_text :: "string \<Rightarrow> string \<Rightarrow> string option \<Rightarrow> string" where
  "pr_text prUrl user_id complexityRaw =
     ''Link: <'' @ prUrl @ ''|Link to PR on GitHub>'' @ [CHR 0x0A] @
     ''Author: <@'' @ user_id @ ''>'' @ [CHR 0x0A] @
     ''Complexity: '' @ formatComplexity complexityRaw"

section \<open>The bot's state and the platform\<close>

text \<open>
  A handler is \<^verbatim>\<open>async\<close>: it runs until its next \<^verbatim>\<open>await\<close>, where other handlers
  may run, and goes on when the awaited call settles. Each handler is therefore a function
  for its first stretch and one function for each point it can wait at; a stretch takes
  the state of the bot as it is then and returns the new state and where the handler
  waits next. The console and the logger are not part of the state.
\<close>

record DeletionTimer =
  timeoutId :: nat
  warnTs :: "string option"

text \<open>A message of the platform, with the fields the bot reads; \<open>msg_reactions\<close> holds
  the names of the reactions.\<close>

record message =
  msg_ts :: "string option"
  msg_text :: "string option"
  msg_bot_id :: "string option"
  msg_user :: "string option"
  msg_reactions :: "string list option"

text \<open>\<^verbatim>\<open>event.item\<close>: a message, with its channel and timestamp, or an item of another
  type.\<close>

datatype item = MessageItem string string | OtherItem string

record reaction_event =
  ev_user :: string
  ev_reaction :: string
  ev_item :: item

text \<open>
  The requests the handlers send, with the arguments that vary:
  \<^verbatim>\<open>conversations.history\<close> (channel, latest), \<^verbatim>\<open>conversations.replies\<close> (channel,
  ts), \<^verbatim>\<open>chat.postMessage\<close> (channel, thread_ts, text), \<^verbatim>\<open>chat.delete\<close> (channel,
  ts, which the loop over the replies may pass undefined) and \<^verbatim>\<open>reactions.get\<close>
  (channel, timestamp).
\<close>

datatype api_call =
    ConversationsHistory string string
  | ConversationsReplies string string
  | ChatPostMessage string string string
  | ChatDelete string "string option"
  | ReactionsGet string string

text \<open>How an awaited call settles: the promise rejects, and \<^verbatim>\<open>await\<close> throws, or it
  resolves to a value.\<close>

datatype 'a outcome = Rejected | Resolved 'a

text \<open>What the timer callback captures: \<^verbatim>\<open>channel\<close>, \<^verbatim>\<open>ts\<close>, \<^verbatim>\<open>key\<close> and
  \<^verbatim>\<open>warnMsg.ts\<close>.\<close>

record cleanup_closure =
  cl_channel :: string
  cl_ts :: string
  cl_key :: string
  cl_warnTs :: "string option"

text \<open>
  The module's variables \<^verbatim>\<open>deletionTimers\<close>, \<^verbatim>\<open>processingReactions\<close> and
  \<^verbatim>\<open>myBotId\<close>; the timers of the runtime that are armed, and the identifier of the next
  one; the requests sent so far, oldest first; and the keys for which
  \<^verbatim>\<open>processingReactions.delete\<close> returned true, oldest first.
\<close>

record bot =
  deletionTimers :: "string \<rightharpoonup> DeletionTimer"
  processingReactions :: "string set"
  myBotId :: "string option"
  timeouts :: "nat \<rightharpoonup> cleanup_closure"
  nextTimeoutId :: nat
  calls :: "api_call list"
  released :: "string list"

text \<open>A handler has returned, or waits.\<close>

datatype 'w task = Done | Await 'w

definition make_key :: "string \<Rightarrow> string \<Rightarrow> string" where
  "make_key channel ts = channel @ '':'' @ ts"

definition guard_add :: "string \<Rightarrow> bot \<Rightarrow> bot" where
  "guard_add key s = s\<lparr>processingReactions := insert key (processingReactions s)\<rparr>"

definition guard_delete :: "string \<Rightarrow> bot \<Rightarrow> bot" where
  "guard_delete key s =
     s\<lparr>processingReactions := processingReactions s - {key},
       released := released s @ (if key \<in> processingReactions s then [key] else [])\<rparr>"

definition request :: "api_call \<Rightarrow> bot \<Rightarrow> bot" where
  "request c s = s\<lparr>calls := calls s @ [c]\<rparr>"

definition setTimeout :: "cleanup_closure \<Rightarrow> bot \<Rightarrow> nat \<times> bot" where
  "setTimeout clo s =
     (nextTimeoutId s,
      s\<lparr>timeouts := (timeouts s)(nextTimeoutId s \<mapsto> clo),
        nextTimeoutId := Suc (nextTimeoutId s)\<rparr>)"

definition clearTimeout :: "nat \<Rightarrow> bot \<Rightarrow> bot" where
  "clearTimeout i s = s\<lparr>timeouts := (timeouts s)(i := None)\<rparr>"

section \<open>The handler of \<^verbatim>\<open>reaction_added\<close>\<close>

text \<open>Where the handler can wait, with the variables it still needs: for the history, for
  the post of a notification, for the replies of the thread, for the post of the
  warning.\<close>

datatype added_wait =
    AwaitHistory reaction_event string string string
  | AwaitNotice reaction_event string
  | AwaitReplies reaction_event string string string
  | AwaitWarning reaction_event string string string

text \<open>Leaving the inner \<^verbatim>\<open>try\<close> by a \<^verbatim>\<open>return\<close> or at its end: the \<^verbatim>\<open>finally\<close>
  block.\<close>

definition added_return :: "string \<Rightarrow> bot \<Rightarrow> bot \<times> added_wait task" where
  "added_return key s = (guard_delete key s, Done)"

text \<open>Leaving it by an exception: the \<^verbatim>\<open>finally\<close> block, then the outer
  \<^verbatim>\<open>catch\<close>, which deletes the key again.\<close>

definition added_throw :: "reaction_event \<Rightarrow> string \<Rightarrow> bot \<Rightarrow> bot \<times> added_wait task" where
  "added_throw ev key s =
     (let s1 = guard_delete key s in
      (case ev_item ev of
         MessageItem channel ts \<Rightarrow> guard_delete (make_key channel ts) s1
       | OtherItem _ \<Rightarrow> s1,
       Done))"

definition reaction_added_begin :: "reaction_event \<Rightarrow> bot \<Rightarrow> bot \<times> added_wait task" where
  "reaction_added_begin ev s =
     (case ev_item ev of
        OtherItem _ \<Rightarrow> (s, Done)
      | MessageItem channel ts \<Rightarrow>
          let key = make_key channel ts;
              s1 = guard_add key s
          in (request (ConversationsHistory channel ts) s1, Await (AwaitHistory ev channel ts key)))"

text \<open>\<^verbatim>\<open>history.messages?.[0]\<close>\<close>

definition first_message :: "message list option \<Rightarrow> message option" where
  "first_message messages =
     (case messages of None \<Rightarrow> None | Some [] \<Rightarrow> None | Some (m # _) \<Rightarrow> Some m)"

definition after_history ::
  "reaction_event \<Rightarrow> string \<Rightarrow> string \<Rightarrow> string \<Rightarrow> message list option outcome \<Rightarrow> bot
     \<Rightarrow> bot \<times> added_wait task" where
  "after_history ev channel ts key r s =
     (case r of
        Rejected \<Rightarrow> added_throw ev key s
      | Resolved messages \<Rightarrow>
          (case first_message messages of
             None \<Rightarrow> added_return key s
           | Some message \<Rightarrow>
               if msg_bot_id message \<noteq> myBotId s then added_return key s
               else
                 let authorId = getAuthorIdFromText (or_empty (msg_text message)) in
                 if ev_reaction ev = REACTIONS_COMMENT then
                   let text = if_truthy authorId (\<lambda>a. COMMENT_OWN a (ev_user ev)) COMMENT_OTHER
                   in (request (ChatPostMessage channel ts text) s, Await (AwaitNotice ev key))
                 else if ev_reaction ev = REACTIONS_APPROVED then
                   let text = if_truthy authorId APPROVED_OWN APPROVED_OTHER
                   in (request (ChatPostMessage channel ts text) s, Await (AwaitNotice ev key))
                 else if ev_reaction ev = REACTIONS_UPDATED then
                   (request (ConversationsReplies channel ts) s,
                    Await (AwaitReplies ev channel ts key))
                 else if ev_reaction ev = REACTIONS_MERGED then
                   if key \<notin> processingReactions s then added_return key s
                   else if deletionTimers s key \<noteq> None then added_return key s
                   else
                     let warnText = if_truthy authorId MERGED_WARNING_OWN MERGED_WARNING
                     in (request (ChatPostMessage channel ts warnText) s,
                         Await (AwaitWarning ev channel ts key))
                 else added_return key s))"

definition after_notice ::
  "reaction_event \<Rightarrow> string \<Rightarrow> string option outcome \<Rightarrow> bot \<Rightarrow> bot \<times> added_wait task" where
  "after_notice ev key r s =
     (case r of Rejected \<Rightarrow> added_throw ev key s | Resolved _ \<Rightarrow> added_return key s)"

text \<open>The loop over the replies: \<^verbatim>\<open>reviewers\<close> is a \<^verbatim>\<open>Set\<close>, which keeps the order
  of insertion.\<close>

definition add_reviewer :: "string list \<Rightarrow> message \<Rightarrow> string list" where
  "add_reviewer reviewers msg =
     (case msg_text msg of
        None \<Rightarrow> reviewers
      | Some t \<Rightarrow>
          (case reviewer_match t of
             None \<Rightarrow> reviewers
           | Some ident \<Rightarrow> if ident \<in> set reviewers then reviewers else reviewers @ [ident]))"

fun join_with :: "string \<Rightarrow> string list \<Rightarrow> string" where
  "join_with sep [] = []"
| "join_with sep [x] = x"
| "join_with sep (x # y # ys) = x @ sep @ join_with sep (y # ys)"

definition after_replies ::
  "reaction_event \<Rightarrow> string \<Rightarrow> string \<Rightarrow> string \<Rightarrow> message list option outcome \<Rightarrow> bot
     \<Rightarrow> bot \<times> added_wait task" where
  "after_replies ev channel ts key r s =
     (case r of
        Rejected \<Rightarrow> added_throw ev key s
      | Resolved messages \<Rightarrow>
          let reviewers = foldl add_reviewer [] (or_nil messages) in
          if reviewers = [] then
            (request (ChatPostMessage channel ts
                ''Updates were made, but no reviewers were detected.'') s,
             Await (AwaitNotice ev key))
          else
            let mentions = join_with '' '' (map (\<lambda>ident. ''<@'' @ ident @ ''>'') reviewers) in
            (request (ChatPostMessage channel ts
                (mentions @ '' - The PR author has updated the PR - please review again'')) s,
             Await (AwaitNotice ev key)))"

text \<open>After the warning is posted: \<^verbatim>\<open>setTimeout\<close>, \<^verbatim>\<open>deletionTimers.set\<close>, and the end
  of the inner \<^verbatim>\<open>try\<close>.\<close>

definition after_warning ::
  "reaction_event \<Rightarrow> string \<Rightarrow> string \<Rightarrow> string \<Rightarrow> string option outcome \<Rightarrow> bot
     \<Rightarrow> bot \<times> added_wait task" where
  "after_warning ev channel ts key r s =
     (case r of
        Rejected \<Rightarrow> added_throw ev key s
      | Resolved warnMsg_ts \<Rightarrow>
          let (tid, s1) = setTimeout
                \<lparr>cl_channel = channel, cl_ts = ts, cl_key = key, cl_warnTs = warnMsg_ts\<rparr> s;
              s2 = s1\<lparr>deletionTimers :=
                     (deletionTimers s1)(key \<mapsto> \<lparr>timeoutId = tid, warnTs = warnMsg_ts\<rparr>)\<rparr>
          in added_return key s2)"

section \<open>The timer callback\<close>

datatype cleanup_wait =
    AwaitReactions cleanup_closure
  | AwaitCancelledWarn cleanup_closure
  | AwaitThread cleanup_closure
  | AwaitReplyDelete cleanup_closure "message list"
  | AwaitParentDelete cleanup_closure
  | AwaitWarnDelete cleanup_closure

text \<open>Leaving the callback, by a \<^verbatim>\<open>return\<close>, at its end or through its \<^verbatim>\<open>catch\<close>,
  which only logs: the \<^verbatim>\<open>finally\<close> block.\<close>

definition cleanup_return :: "cleanup_closure \<Rightarrow> bot \<Rightarrow> bot \<times> cleanup_wait task" where
  "cleanup_return clo s = (s\<lparr>deletionTimers := (deletionTimers s)(cl_key clo := None)\<rparr>, Done)"

definition cleanup_begin :: "cleanup_closure \<Rightarrow> bot \<Rightarrow> bot \<times> cleanup_wait task" where
  "cleanup_begin clo s =
     (request (ReactionsGet (cl_channel clo) (cl_ts clo)) s, Await (AwaitReactions clo))"

text \<open>The timer with identifier \<open>i\<close> fires, if it is armed. The delay of 30 seconds is
  not modelled: an armed timer may fire at any moment.\<close>

definition timer_fires :: "nat \<Rightarrow> bot \<Rightarrow> bot \<times> cleanup_wait task" where
  "timer_fires i s =
     (case timeouts s i of
        None \<Rightarrow> (s, Done)
      | Some clo \<Rightarrow> cleanup_begin clo (clearTimeout i s))"

text \<open>\<^verbatim>\<open>reactionsInfo.message?.reactions || []\<close>, as the names of the reactions.\<close>

definition current_reactions :: "message option \<Rightarrow> string list" where
  "current_reactions info_message =
     or_nil (case info_message of None \<Rightarrow> None | Some m \<Rightarrow> msg_reactions m)"

definition after_reactions ::
  "cleanup_closure \<Rightarrow> message option outcome \<Rightarrow> bot \<Rightarrow> bot \<times> cleanup_wait task" where
  "after_reactions clo r s =
     (case r of
        Rejected \<Rightarrow> cleanup_return clo s
      | Resolved info_message \<Rightarrow>
          let reactions = current_reactions info_message;
              stillHasMerged = (REACTIONS_MERGED \<in> set reactions)
          in
            if \<not> stillHasMerged then
              (if truthy (cl_warnTs clo) then
                 (request (ChatDelete (cl_channel clo) (cl_warnTs clo)) s,
                  Await (AwaitCancelledWarn clo))
               else cleanup_return clo s)
            else
              (request (ConversationsReplies (cl_channel clo) (cl_ts clo)) s,
               Await (AwaitThread clo)))"

definition delete_parent :: "cleanup_closure \<Rightarrow> bot \<Rightarrow> bot \<times> cleanup_wait task" where
  "delete_parent clo s =
     (request (ChatDelete (cl_channel clo) (Some (cl_ts clo))) s, Await (AwaitParentDelete clo))"

text \<open>The loop over the replies, up to its next \<^verbatim>\<open>await\<close>; after the loop, the parent is
  deleted.\<close>

fun delete_replies :: "cleanup_closure \<Rightarrow> message list \<Rightarrow> bot \<Rightarrow> bot \<times> cleanup_wait task" where
  "delete_replies clo [] s = delete_parent clo s"
| "delete_replies clo (msg # rest) s =
     (if msg_ts msg = Some (cl_ts clo) then delete_replies clo rest s
      else if msg_bot_id msg = myBotId s \<or> msg_user msg = myBotId s then
        (request (ChatDelete (cl_channel clo) (msg_ts msg)) s, Await (AwaitReplyDelete clo rest))
      else delete_replies clo rest s)"

definition after_thread ::
  "cleanup_closure \<Rightarrow> message list option outcome \<Rightarrow> bot \<Rightarrow> bot \<times> cleanup_wait task" where
  "after_thread clo r s =
     (case r of
        Rejected \<Rightarrow> delete_parent clo s
      | Resolved messages \<Rightarrow> delete_replies clo (or_nil messages) s)"

definition after_reply_delete ::
  "cleanup_closure \<Rightarrow> message list \<Rightarrow> unit outcome \<Rightarrow> bot \<Rightarrow> bot \<times> cleanup_wait task" where
  "after_reply_delete clo rest r s = delete_replies clo rest s"

definition after_parent_delete ::
  "cleanup_closure \<Rightarrow> unit outcome \<Rightarrow> bot \<Rightarrow> bot \<times> cleanup_wait task" where
  "after_parent_delete clo r s =
     (case r of
        Rejected \<Rightarrow> cleanup_return clo s
      | Resolved _ \<Rightarrow>
          if truthy (cl_warnTs clo) then
            (request (ChatDelete (cl_channel clo) (cl_warnTs clo)) s, Await (AwaitWarnDelete clo))
          else cleanup_return clo s)"

definition after_warn_delete ::
  "cleanup_closure \<Rightarrow> unit outcome \<Rightarrow> bot \<Rightarrow> bot \<times> cleanup_wait task" where
  "after_warn_delete clo r s = cleanup_return clo s"

section \<open>The handler of \<^verbatim>\<open>reaction_removed\<close>\<close>

datatype removed_wait = AwaitCancelDelete

definition reaction_removed_begin :: "reaction_event \<Rightarrow> bot \<Rightarrow> bot \<times> removed_wait task" where
  "reaction_removed_begin ev s =
     (if ev_reaction ev \<noteq> REACTIONS_MERGED then (s, Done)
      else
        (case ev_item ev of
           OtherItem _ \<Rightarrow> (s, Done)
         | MessageItem channel ts \<Rightarrow>
             let key = make_key channel ts in
             if key \<in> processingReactions s then (guard_delete key s, Done)
             else
               (case deletionTimers s key of
                  None \<Rightarrow> (s, Done)
                | Some timerData \<Rightarrow>
                    let s1 = clearTimeout (timeoutId timerData) s;
                        s2 = s1\<lparr>deletionTimers := (deletionTimers s1)(key := None)\<rparr>
                    in
                      if truthy (warnTs timerData) then
                        (request (ChatDelete channel (warnTs timerData)) s2,
                         Await AwaitCancelDelete)
                      else (s2, Done))))"

text \<open>A delete that fails is logged.\<close>

definition after_cancel_delete :: "unit outcome \<Rightarrow> bot \<Rightarrow> bot \<times> removed_wait task" where
  "after_cancel_delete r s = (s, Done)"

section \<open>Runs of a handler\<close>

text \<open>
  The platform: how each call settles, given the requests sent up to and including it.
  Any sequence of answers to the calls of a run is one such platform.
\<close>

record slack =
  on_history :: "api_call list \<Rightarrow> message list option outcome"
  on_replies :: "api_call list \<Rightarrow> message list option outcome"
  on_postMessage :: "api_call list \<Rightarrow> string option outcome"
  on_delete :: "api_call list \<Rightarrow> unit outcome"
  on_reactions :: "api_call list \<Rightarrow> message option outcome"

text \<open>The handler goes on from where it waits, in the state \<open>s\<close> of that moment.\<close>

definition resume_added :: "slack \<Rightarrow> added_wait \<Rightarrow> bot \<Rightarrow> bot \<times> added_wait task" where
  "resume_added env w s =
     (case w of
        AwaitHistory ev channel ts key \<Rightarrow>
          after_history ev channel ts key (on_history env (calls s)) s
      | AwaitNotice ev key \<Rightarrow> after_notice ev key (on_postMessage env (calls s)) s
      | AwaitReplies ev channel ts key \<Rightarrow>
          after_replies ev channel ts key (on_replies env (calls s)) s
      | AwaitWarning ev channel ts key \<Rightarrow>
          after_warning ev channel ts key (on_postMessage env (calls s)) s)"

definition resume_cleanup :: "slack \<Rightarrow> cleanup_wait \<Rightarrow> bot \<Rightarrow> bot \<times> cleanup_wait task" where
  "resume_cleanup env w s =
     (case w of
        AwaitReactions clo \<Rightarrow> after_reactions clo (on_reactions env (calls s)) s
      | AwaitCancelledWarn clo \<Rightarrow> after_warn_delete clo (on_delete env (calls s)) s
      | AwaitThread clo \<Rightarrow> after_thread clo (on_replies env (calls s)) s
      | AwaitReplyDelete clo rest \<Rightarrow> after_reply_delete clo rest (on_delete env (calls s)) s
      | AwaitParentDelete clo \<Rightarrow> after_parent_delete clo (on_delete env (calls s)) s
      | AwaitWarnDelete clo \<Rightarrow> after_warn_delete clo (on_delete env (calls s)) s)"

definition resume_removed :: "slack \<Rightarrow> removed_wait \<Rightarrow> bot \<Rightarrow> bot \<times> removed_wait task" where
  "resume_removed env w s =
     (case w of AwaitCancelDelete \<Rightarrow> after_cancel_delete (on_delete env (calls s)) s)"

text \<open>How far a waiting handler is from its end: the awaits still ahead of it.\<close>

fun added_rank :: "added_wait task \<Rightarrow> nat" where
  "added_rank Done = 0"
| "added_rank (Await (AwaitHistory _ _ _ _)) = 3"
| "added_rank (Await (AwaitReplies _ _ _ _)) = 2"
| "added_rank (Await (AwaitNotice _ _)) = 1"
| "added_rank (Await (AwaitWarning _ _ _ _)) = 1"

fun cleanup_rank :: "cleanup_wait task \<Rightarrow> nat \<times> nat" where
  "cleanup_rank Done = (0, 0)"
| "cleanup_rank (Await (AwaitReactions _)) = (5, 0)"
| "cleanup_rank (Await (AwaitThread _)) = (4, 0)"
| "cleanup_rank (Await (AwaitReplyDelete _ rest)) = (3, length rest)"
| "cleanup_rank (Await (AwaitParentDelete _)) = (2, 0)"
| "cleanup_rank (Await (AwaitWarnDelete _)) = (1, 0)"
| "cleanup_rank (Await (AwaitCancelledWarn _)) = (1, 0)"

lemma added_rank_decreases: "added_rank (snd (resume_added env w s)) < added_rank (Await w)"
  by (cases w)
     (auto simp: resume_added_def after_history_def after_notice_def after_replies_def
        after_warning_def added_return_def added_throw_def Let_def
        split: outcome.splits option.splits prod.splits)

lemma delete_replies_rank:
  "cleanup_rank (snd (delete_replies clo msgs s)) = (2, 0) \<or>
   (\<exists>n. cleanup_rank (snd (delete_replies clo msgs s)) = (3, n) \<and> n < length msgs)"
  by (induction msgs) (auto simp: delete_parent_def)

lemma cleanup_rank_decreases:
  "(cleanup_rank (snd (resume_cleanup env w s)), cleanup_rank (Await w))
     \<in> less_than <*lex*> less_than"
proof (cases w)
  case (AwaitThread clo)
  show ?thesis
  proof (cases "on_replies env (calls s)")
    case Rejected
    with AwaitThread show ?thesis
      by (simp add: resume_cleanup_def after_thread_def delete_parent_def)
  next
    case (Resolved messages)
    with AwaitThread show ?thesis
      using delete_replies_rank [of clo "or_nil messages" s]
      by (auto simp: resume_cleanup_def after_thread_def)
  qed
next
  case (AwaitReplyDelete clo rest)
  then show ?thesis
    using delete_replies_rank [of clo rest s]
    by (auto simp: resume_cleanup_def after_reply_delete_def)
qed (auto simp: resume_cleanup_def after_reactions_def after_parent_delete_def
       after_warn_delete_def cleanup_return_def Let_def split: outcome.splits)

text \<open>A handler run to its end with no other handler in between.\<close>

function run_added :: "slack \<Rightarrow> bot \<times> added_wait task \<Rightarrow> bot" where
  "run_added env (s, Done) = s"
| "run_added env (s, Await w) = run_added env (resume_added env w s)"
  by pat_completeness auto
termination
proof (relation "measure (\<lambda>(env, st). added_rank (snd st))")
  show "wf (measure (\<lambda>(env, st). added_rank (snd st)))" by simp
next
  fix env s w
  show "((env, resume_added env w s), (env, s, Await w))
          \<in> measure (\<lambda>(env, st). added_rank (snd st))"
    using added_rank_decreases [of env w s] by simp
qed

function run_cleanup :: "slack \<Rightarrow> bot \<times> cleanup_wait task \<Rightarrow> bot" where
  "run_cleanup env (s, Done) = s"
| "run_cleanup env (s, Await w) = run_cleanup env (resume_cleanup env w s)"
  by pat_completeness auto
termination
proof (relation "inv_image (less_than <*lex*> less_than) (\<lambda>(env, st). cleanup_rank (snd st))")
  show "wf (inv_image (less_than <*lex*> less_than) (\<lambda>(env, st). cleanup_rank (snd st)))"
    by (intro wf_inv_image wf_lex_prod wf_less_than)
next
  fix env s w
  show "((env, resume_cleanup env w s), (env, s, Await w))
          \<in> inv_image (less_than <*lex*> less_than) (\<lambda>(env, st). cleanup_rank (snd st))"
    using cleanup_rank_decreases [of env w s] by simp
qed

fun run_removed :: "slack \<Rightarrow> bot \<times> removed_wait task \<Rightarrow> bot" where
  "run_removed env (s, Done) = s"
| "run_removed env (s, Await w) = fst (resume_removed env w s)"

definition reaction_added :: "slack \<Rightarrow> reaction_event \<Rightarrow> bot \<Rightarrow> bot" where
  "reaction_added env ev s = run_added env (reaction_added_begin ev s)"

definition reaction_removed :: "slack \<Rightarrow> reaction_event \<Rightarrow> bot \<Rightarrow> bot" where
  "reaction_removed env ev s = run_removed env (reaction_removed_begin ev s)"

definition cleanup :: "slack \<Rightarrow> cleanup_closure \<Rightarrow> bot \<Rightarrow> bot" where
  "cleanup env clo s = run_cleanup env (cleanup_begin clo s)"

section \<open>Start of the process\<close>

text \<open>The process has exited with a code, or its server runs with a state.\<close>

datatype process = Exited nat | Running bot

definition initial :: bot where
  "initial = \<lparr>deletionTimers = Map.empty, processingReactions = {}, myBotId = None,
     timeouts = Map.empty, nextTimeoutId = 0, calls = [], released = []\<rparr>"

text \<open>After \<^verbatim>\<open>app.start\<close>: \<^verbatim>\<open>auth.test\<close>, whose \<^verbatim>\<open>bot_id\<close> may be absent; a failure is
  printed and \<^verbatim>\<open>myBotId\<close> stays undefined.\<close>

definition identify :: "string option outcome \<Rightarrow> bot \<Rightarrow> bot" where
  "identify r s = (case r of Rejected \<Rightarrow> s | Resolved bot_id \<Rightarrow> s\<lparr>myBotId := bot_id\<rparr>)"

text \<open>
  The module's top level, from the environment of the process and the outcome of
  \<^verbatim>\<open>auth.test\<close>. The test of the two variables comes before \<^verbatim>\<open>dotenv.config()\<close>, so it
  reads the environment the process was started with.
\<close>

definition start :: "(string \<rightharpoonup> string) \<Rightarrow> string option outcome \<Rightarrow> process" where
  "start env auth =
     (if \<not> truthy (env ''SLACK_BOT_TOKEN'') \<or> \<not> truthy (env ''SLACK_SIGNING_SECRET'')
      then Exited 1
      else Running (identify auth initial))"

section \<open>Notions used in the properties\<close>

text \<open>The key and the event a waiting handler of \<^verbatim>\<open>reaction_added\<close> holds, and the
  variables a waiting timer callback holds.\<close>

fun added_key :: "added_wait \<Rightarrow> string" where
  "added_key (AwaitHistory ev channel ts key) = key"
| "added_key (AwaitNotice ev key) = key"
| "added_key (AwaitReplies ev channel ts key) = key"
| "added_key (AwaitWarning ev channel ts key) = key"

fun added_event :: "added_wait \<Rightarrow> reaction_event" where
  "added_event (AwaitHistory ev channel ts key) = ev"
| "added_event (AwaitNotice ev key) = ev"
| "added_event (AwaitReplies ev channel ts key) = ev"
| "added_event (AwaitWarning ev channel ts key) = ev"

fun cleanup_closure_of :: "cleanup_wait \<Rightarrow> cleanup_closure" where
  "cleanup_closure_of (AwaitReactions clo) = clo"
| "cleanup_closure_of (AwaitCancelledWarn clo) = clo"
| "cleanup_closure_of (AwaitThread clo) = clo"
| "cleanup_closure_of (AwaitReplyDelete clo rest) = clo"
| "cleanup_closure_of (AwaitParentDelete clo) = clo"
| "cleanup_closure_of (AwaitWarnDelete clo) = clo"

text \<open>A text mentions a user when it contains the mention token of that user.\<close>

definition mentions :: "string \<Rightarrow> string \<Rightarrow> bool" where
  "mentions ident t = sublist (''<@'' @ ident @ ''>'') t"

section \<open>Properties of the author pattern\<close>

text \<open>
  A text that does not match cannot be made to match by what follows it, when that starts
  with a character \<open>t0\<close> that continues no part of the pattern.
\<close>

lemma author_here_head: "toLowerChar c \<noteq> CHR ''a'' \<Longrightarrow> author_here (c # cs) = None"
  by (simp add: author_here_def toLowerCase_def)

lemma white_space_len_append:
  assumes "\<not> ws_byte t0"
  shows "white_space_len (x @ t0 # T) = white_space_len x"
proof (cases x)
  case Nil
  with assms show ?thesis by (simp add: white_space_len_def ws_byte_def split: list.splits)
next
  case (Cons c1 r1)
  show ?thesis
  proof (cases r1)
    case Nil
    with Cons assms show ?thesis by (simp add: white_space_len_def ws_byte_def split: list.splits)
  next
    case (Cons c2 r2)
    note r1 = Cons
    show ?thesis
    proof (cases r2)
      case Nil
      with r1 \<open>x = c1 # r1\<close> assms show ?thesis
        by (simp add: white_space_len_def ws_byte_def split: list.splits)
    next
      case (Cons c3 r3)
      with r1 \<open>x = c1 # r1\<close> show ?thesis
        by (simp add: white_space_len_def)
    qed
  qed
qed

lemma skip_white_space_append:
  assumes "\<not> ws_byte t0"
  shows "skip_white_space (x @ t0 # T) = skip_white_space x @ t0 # T"
proof (induction x rule: skip_white_space.induct)
  case (1 t)
  show ?case
  proof (cases "white_space_len t = 0")
    case True
    then show ?thesis
      using white_space_len_append [OF assms, of t T]
      by (simp add: skip_white_space.simps [of t] skip_white_space.simps [of "t @ t0 # T"])
  next
    case False
    have le: "white_space_len t \<le> length t" by (rule white_space_len_le)
    from False 1 have "skip_white_space (drop (white_space_len t) t @ t0 # T)
        = skip_white_space (drop (white_space_len t) t) @ t0 # T" by simp
    with False le show ?thesis
      using white_space_len_append [OF assms, of t T]
      by (simp add: skip_white_space.simps [of t] skip_white_space.simps [of "t @ t0 # T"])
  qed
qed

lemma match_mention_append:
  assumes none: "match_mention cls r = None"
    and "t0 \<noteq> CHR ''<''" and "t0 \<noteq> CHR ''@''"
    and stop: "take 1 (dropWhile cls (t0 # T)) \<noteq> ''>''"
  shows "match_mention cls (r @ t0 # T) = None"
proof (cases "take 2 r = ''<@''")
  case False
  with assms(2,3) have "take 2 (r @ t0 # T) \<noteq> ''<@''"
    by (cases r; cases "tl r") auto
  then show ?thesis by (simp add: match_mention_def)
next
  case True
  then have len: "2 \<le> length r" by (cases r; cases "tl r") auto
  define x where "x = drop 2 r"
  from len have d: "drop 2 (r @ t0 # T) = x @ t0 # T" and t: "take 2 (r @ t0 # T) = ''<@''"
    using True by (simp_all add: x_def)
  show ?thesis
  proof (cases "\<forall>c \<in> set x. cls c")
    case True
    then have "takeWhile cls (x @ t0 # T) = x @ takeWhile cls (t0 # T)"
      and "dropWhile cls (x @ t0 # T) = dropWhile cls (t0 # T)"
      by simp_all
    with stop show ?thesis unfolding match_mention_def t d Let_def by simp
  next
    case False
    then obtain c where c: "c \<in> set x" "\<not> cls c" by blast
    then have tw: "takeWhile cls (x @ t0 # T) = takeWhile cls x"
      and dw: "dropWhile cls (x @ t0 # T) = dropWhile cls x @ t0 # T"
      by simp_all
    from c have ne: "dropWhile cls x \<noteq> []" by auto
    then have "take 1 (dropWhile cls x @ t0 # T) = take 1 (dropWhile cls x)"
      by (cases "dropWhile cls x") auto
    moreover from none \<open>take 2 r = ''<@''\<close>
    have "\<not> (takeWhile cls x \<noteq> [] \<and> take 1 (dropWhile cls x) = ''>'')"
      by (simp add: match_mention_def Let_def x_def split: if_splits)
    ultimately show ?thesis unfolding match_mention_def t d tw dw Let_def by simp
  qed
qed

lemma author_literal_straddle:
  assumes "p \<noteq> []" "length p < 7" "toLowerChar t0 \<notin> set ''uthor:''"
  shows "toLowerCase (take 7 (p @ t0 # T)) \<noteq> ''author:''"
proof
  assume eq: "toLowerCase (take 7 (p @ t0 # T)) = ''author:''"
  have "toLowerCase (take 7 (p @ t0 # T)) ! length p = toLowerChar t0"
    using assms(2) by (simp add: toLowerCase_def nth_append)
  with eq have "toLowerChar t0 = ''author:'' ! length p" by simp
  moreover from assms(1) have "''author:'' ! length p = ''uthor:'' ! (length p - 1)"
    by (cases p) simp_all
  moreover from assms(2) have "''uthor:'' ! (length p - 1) \<in> set ''uthor:''"
    by (intro nth_mem) simp
  ultimately show False using assms(3) by simp
qed

lemma author_here_append:
  assumes "\<not> ws_byte t0" "t0 \<noteq> CHR ''<''" "t0 \<noteq> CHR ''@''"
    and "toLowerChar t0 \<notin> set ''uthor:''"
    and "take 1 (dropWhile alnum_ci (t0 # T)) \<noteq> ''>''"
    and "p \<noteq> []" and none: "author_here p = None"
  shows "author_here (p @ t0 # T) = None"
proof (cases "length p < 7")
  case True
  with assms have "toLowerCase (take 7 (p @ t0 # T)) \<noteq> ''author:''"
    by (intro author_literal_straddle)
  then show ?thesis unfolding author_here_def by simp
next
  case False
  then have t: "take 7 (p @ t0 # T) = take 7 p" and d: "drop 7 (p @ t0 # T) = drop 7 p @ t0 # T"
    by simp_all
  show ?thesis
  proof (cases "toLowerCase (take 7 p) = ''author:''")
    case False
    then show ?thesis unfolding author_here_def t by simp
  next
    case True
    with none have "match_mention alnum_ci (skip_white_space (drop 7 p)) = None"
      by (simp add: author_here_def)
    then have "match_mention alnum_ci (skip_white_space (drop 7 p) @ t0 # T) = None"
      using assms(2,3,5) by (rule match_mention_append)
    then show ?thesis
      unfolding author_here_def t d skip_white_space_append [OF assms(1)] by simp
  qed
qed

lemma first_match_author_append:
  assumes "\<not> ws_byte t0" "t0 \<noteq> CHR ''<''" "t0 \<noteq> CHR ''@''"
    and "toLowerChar t0 \<notin> set ''uthor:''"
    and "take 1 (dropWhile alnum_ci (t0 # T)) \<noteq> ''>''"
  shows "first_match author_here p = None \<Longrightarrow>
    first_match author_here (p @ t0 # T) = first_match author_here (t0 # T)"
proof (induction p)
  case Nil
  show ?case by simp
next
  case (Cons c cs)
  from Cons.prems have h: "author_here (c # cs) = None" and r: "first_match author_here cs = None"
    by (auto split: option.splits)
  have "author_here ((c # cs) @ t0 # T) = None"
    using assms h by (intro author_here_append) simp_all
  with Cons.IH [OF r] show ?case by simp
qed

lemma white_space_len_plain: "\<not> ws_byte c \<Longrightarrow> white_space_len (c # cs) = 0"
  by (simp add: white_space_len_def ws_byte_def split: list.splits)

lemma skip_white_space_plain: "\<not> ws_byte c \<Longrightarrow> skip_white_space (c # cs) = c # cs"
  by (simp add: skip_white_space.simps [of "c # cs"] white_space_len_plain)

lemma skip_white_space_space: "skip_white_space (CHR '' '' # cs) = skip_white_space cs"
  by (simp add: skip_white_space.simps [of "CHR '' '' # cs"] white_space_len_def)

lemma author_here_token:
  assumes "author \<noteq> []" "\<forall>c \<in> set author. alnum_ci c"
  shows "author_here (''Author: <@'' @ author @ ''>'' @ post) = Some author"
proof -
  have "\<not> alnum_ci CHR ''>''"
    by (simp add: alnum_ci_def is_upper_def is_lower_def is_digit_def)
  with assms(2) have "takeWhile alnum_ci (author @ CHR ''>'' # post) = author"
    and "dropWhile alnum_ci (author @ CHR ''>'' # post) = CHR ''>'' # post"
    by simp_all
  moreover have "skip_white_space (CHR '' '' # CHR ''<'' # CHR ''@'' # author @ CHR ''>'' # post)
      = CHR ''<'' # CHR ''@'' # author @ CHR ''>'' # post"
    by (simp add: skip_white_space_space skip_white_space_plain ws_byte_def)
  ultimately show ?thesis
    using assms(1)
    by (simp add: author_here_def toLowerCase_def toLowerChar_def match_mention_def)
qed

lemma first_author_token:
  assumes "author \<noteq> []" "\<forall>c \<in> set author. alnum_ci c"
    and "getAuthorIdFromText pre = None"
  shows "getAuthorIdFromText (pre @ ''Author: <@'' @ author @ ''>'' @ post) = Some author"
proof -
  let ?T = "''uthor: <@'' @ author @ ''>'' @ post"
  have "first_match author_here (pre @ CHR ''A'' # ?T) = first_match author_here (CHR ''A'' # ?T)"
    using assms(3)
    by (intro first_match_author_append)
       (simp_all add: getAuthorIdFromText_def ws_byte_def toLowerChar_def alnum_ci_def
          is_upper_def is_lower_def is_digit_def)
  moreover have "author_here (CHR ''A'' # ?T) = Some author"
    using author_here_token [OF assms(1,2), of post] by simp
  ultimately show ?thesis by (simp add: getAuthorIdFromText_def)
qed



lemma first_match_skip_head:
  "toLowerChar c \<noteq> CHR ''a'' \<Longrightarrow> first_match author_here (c # cs) = first_match author_here cs"
  by (simp add: author_here_head)

lemma author_of_pr_text:
  assumes "author \<noteq> []" "\<forall>c \<in> set author. alnum_ci c"
    and "getAuthorIdFromText prUrl = None"
  shows "getAuthorIdFromText (pr_text prUrl author complexityRaw) = Some author"
proof -
  let ?post = "CHR 0x0A # ''Complexity: '' @ formatComplexity complexityRaw"
  let ?tok = "''Author: <@'' @ author @ ''>'' @ ?post"
  let ?T = "''Link to PR on GitHub>'' @ [CHR 0x0A] @ ?tok"
  have "getAuthorIdFromText (pr_text prUrl author complexityRaw)
      = first_match author_here (prUrl @ CHR ''|'' # ?T)"
    by (simp add: getAuthorIdFromText_def pr_text_def author_here_head toLowerChar_def)
  also have "\<dots> = first_match author_here (CHR ''|'' # ?T)"
    using assms(3)
    by (intro first_match_author_append)
       (simp_all add: getAuthorIdFromText_def ws_byte_def toLowerChar_def alnum_ci_def
          is_upper_def is_lower_def is_digit_def)
  also have "\<dots> = first_match author_here ?tok"
    by (simp add: author_here_head toLowerChar_def)
  also have "\<dots> = Some author"
    using author_here_token [OF assms(1,2), of ?post] by simp
  finally show ?thesis .
qed

lemma medium_casing:
  assumes "toLowerCase label = ''medium''"
  shows "formatComplexity (Some label) = [CHR 0xF0, CHR 0x9F, CHR 0x9F, CHR 0xA8] @ '' *Medium*''"
proof -
  from assms have "label \<noteq> []" by (auto simp: toLowerCase_def)
  with assms show ?thesis by (simp add: formatComplexity_def if_truthy_def)
qed

section \<open>Properties of the handlers\<close>

lemmas reaction_names = REACTIONS_COMMENT_def REACTIONS_APPROVED_def REACTIONS_MERGED_def
  REACTIONS_UPDATED_def

lemmas state_ops = guard_add_def guard_delete_def request_def setTimeout_def clearTimeout_def

text \<open>Values for the examples: an event on the message \<^verbatim>\<open>1.0\<close> of channel \<^verbatim>\<open>C1\<close>, a
  message there, what a timer for it captures, a platform that grants every call, and a
  bot with a deletion pending for that message.\<close>

abbreviation example_event :: "string \<Rightarrow> reaction_event" where
  "example_event r \<equiv> \<lparr>ev_user = ''U2'', ev_reaction = r, ev_item = MessageItem ''C1'' ''1.0''\<rparr>"

abbreviation example_message :: "string option \<Rightarrow> string \<Rightarrow> message" where
  "example_message b t \<equiv>
     \<lparr>msg_ts = Some ''1.0'', msg_text = Some t, msg_bot_id = b, msg_user = Some ''U1'',
      msg_reactions = None\<rparr>"

abbreviation example_closure :: cleanup_closure where
  "example_closure \<equiv>
     \<lparr>cl_channel = ''C1'', cl_ts = ''1.0'', cl_key = ''C1:1.0'', cl_warnTs = Some ''2.0''\<rparr>"

abbreviation example_slack :: "message \<Rightarrow> slack" where
  "example_slack m \<equiv>
     \<lparr>on_history = \<lambda>_. Resolved (Some [m]), on_replies = \<lambda>_. Resolved None,
      on_postMessage = \<lambda>_. Resolved (Some ''2.0''), on_delete = \<lambda>_. Resolved (),
      on_reactions = \<lambda>_. Resolved None\<rparr>"

abbreviation pending_bot :: bot where
  "pending_bot \<equiv>
     \<lparr>deletionTimers = [''C1:1.0'' \<mapsto> \<lparr>timeoutId = 0, warnTs = Some ''2.0''\<rparr>],
      processingReactions = {}, myBotId = Some ''B1'',
      timeouts = [0 \<mapsto> example_closure], nextTimeoutId = 1, calls = [], released = []\<rparr>"

text \<open>The path that schedules: a \<^verbatim>\<open>merged\<close> reaction on a message that passes the
  identity check, with the key still in the guard and no entry in the registry, posts
  the warning, and once that is posted a timer is armed and recorded under the key.\<close>

lemma merged_reaction_posts_warning:
  assumes "ev_reaction ev = REACTIONS_MERGED" and "first_message messages = Some m"
    and "msg_bot_id m = myBotId s" and "key \<in> processingReactions s"
    and "deletionTimers s key = None"
  shows "after_history ev channel ts key (Resolved messages) s =
           (request (ChatPostMessage channel ts
              (if_truthy (getAuthorIdFromText (or_empty (msg_text m)))
                 MERGED_WARNING_OWN MERGED_WARNING)) s,
            Await (AwaitWarning ev channel ts key))"
  using assms by (simp add: after_history_def reaction_names Let_def)

lemma warning_posted_arms_timer:
  "deletionTimers (fst (after_warning ev channel ts key (Resolved w) s)) key =
     Some \<lparr>timeoutId = nextTimeoutId s, warnTs = w\<rparr> \<and>
   timeouts (fst (after_warning ev channel ts key (Resolved w) s)) (nextTimeoutId s) =
     Some \<lparr>cl_channel = channel, cl_ts = ts, cl_key = key, cl_warnTs = w\<rparr>"
  by (simp add: after_warning_def added_return_def state_ops)





text \<open>
  C2. The registry is a map from keys, so it holds at most one entry for a key. When a
  \<^verbatim>\<open>merged\<close> reaction is handled, with no other handler in between, for a key that has
  an entry: whatever the platform answers, the handler only fetches the history; it posts
  nothing, arms no timer, and the registry is as it was, with the entry it had.
\<close>

theorem second_merged_reaction_is_noop:
  assumes "ev_reaction ev = REACTIONS_MERGED" and "ev_item ev = MessageItem channel ts"
    and "deletionTimers s (make_key channel ts) = Some d"
  shows "let s' = reaction_added env ev s
         in deletionTimers s' = deletionTimers s \<and>
            timeouts s' = timeouts s \<and>
            nextTimeoutId s' = nextTimeoutId s \<and>
            calls s' = calls s @ [ConversationsHistory channel ts]"
proof -
  define key where "key = make_key channel ts"
  define s1 where "s1 = request (ConversationsHistory channel ts) (guard_add key s)"
  have b: "reaction_added_begin ev s = (s1, Await (AwaitHistory ev channel ts key))"
    using assms(2) by (simp add: reaction_added_begin_def key_def s1_def Let_def)
  have d: "deletionTimers s1 key = Some d" "key \<in> processingReactions s1"
    using assms(3) by (simp_all add: s1_def key_def state_ops)
  have "after_history ev channel ts key (on_history env (calls s1)) s1 = added_return key s1 \<or>
        after_history ev channel ts key (on_history env (calls s1)) s1 = added_throw ev key s1"
    using assms(1) d
    by (auto simp: after_history_def reaction_names split: outcome.splits option.splits)
  then have "\<exists>s2. resume_added env (AwaitHistory ev channel ts key) s1 = (s2, Done) \<and>
      deletionTimers s2 = deletionTimers s1 \<and> timeouts s2 = timeouts s1 \<and>
      nextTimeoutId s2 = nextTimeoutId s1 \<and> calls s2 = calls s1"
    using assms(2)
    by (auto simp: resume_added_def added_return_def added_throw_def state_ops Let_def)
  then obtain s2 where "resume_added env (AwaitHistory ev channel ts key) s1 = (s2, Done)"
    and "deletionTimers s2 = deletionTimers s1" "timeouts s2 = timeouts s1"
      "nextTimeoutId s2 = nextTimeoutId s1" "calls s2 = calls s1"
    by blast
  then show ?thesis
    by (simp add: reaction_added_def b s1_def state_ops)
qed

theorem second_merged_reaction_is_noop_witness:
  "ev_reaction (example_event ''merged'') = REACTIONS_MERGED \<and>
   ev_item (example_event ''merged'') = MessageItem ''C1'' ''1.0'' \<and>
   deletionTimers pending_bot (make_key ''C1'' ''1.0'') =
     Some \<lparr>timeoutId = 0, warnTs = Some ''2.0''\<rparr> \<and>
   (let s' = reaction_added (example_slack (example_message (Some ''B1'') ''Author: <@U1>''))
               (example_event ''merged'') pending_bot
    in deletionTimers s' = deletionTimers pending_bot \<and>
       timeouts s' = timeouts pending_bot \<and>
       nextTimeoutId s' = nextTimeoutId pending_bot \<and>
       calls s' = calls pending_bot @ [ConversationsHistory ''C1'' ''1.0''])"
proof -
  have h1: "ev_reaction (example_event ''merged'') = REACTIONS_MERGED"
    by (simp add: REACTIONS_MERGED_def)
  have h2: "ev_item (example_event ''merged'') = MessageItem ''C1'' ''1.0''" by simp
  have h3: "deletionTimers pending_bot (make_key ''C1'' ''1.0'') =
      Some \<lparr>timeoutId = 0, warnTs = Some ''2.0''\<rparr>"
    by (simp add: make_key_def)
  show ?thesis
    using h1 h2 h3
      second_merged_reaction_is_noop [OF h1 h2 h3,
        where env = "example_slack (example_message (Some ''B1'') ''Author: <@U1>'')"]
    by blast
qed

text \<open>
  C3. The removal of a \<^verbatim>\<open>merged\<close> reaction is handled for a key that is not in the
  guard and has an entry in the registry. Whatever the platform answers, the timer of the
  entry is cleared, so that it does not fire, the entry is removed, and the only request
  is the deletion of the warning whose timestamp the entry recorded (none when it
  recorded none): nothing asks to delete the message reacted to or a reply.
\<close>

theorem removal_cancels_armed_timer:
  assumes "ev_reaction ev = REACTIONS_MERGED" and "ev_item ev = MessageItem channel ts"
    and "make_key channel ts \<notin> processingReactions s"
    and "deletionTimers s (make_key channel ts) = Some d"
  shows "let s' = reaction_removed env ev s
         in timeouts s' = (timeouts s)(timeoutId d := None) \<and>
            timer_fires (timeoutId d) s' = (s', Done) \<and>
            deletionTimers s' = (deletionTimers s)(make_key channel ts := None) \<and>
            calls s' = calls s @
              (if truthy (warnTs d) then [ChatDelete channel (warnTs d)] else []) \<and>
            processingReactions s' = processingReactions s"
  using assms
  by (simp add: reaction_removed_def reaction_removed_begin_def resume_removed_def
      after_cancel_delete_def timer_fires_def state_ops Let_def)

theorem removal_cancels_armed_timer_witness:
  "ev_reaction (example_event ''merged'') = REACTIONS_MERGED \<and>
   ev_item (example_event ''merged'') = MessageItem ''C1'' ''1.0'' \<and>
   make_key ''C1'' ''1.0'' \<notin> processingReactions pending_bot \<and>
   deletionTimers pending_bot (make_key ''C1'' ''1.0'') =
     Some \<lparr>timeoutId = 0, warnTs = Some ''2.0''\<rparr> \<and>
   (let s' = reaction_removed (example_slack (example_message (Some ''B1'') ''Author: <@U1>''))
               (example_event ''merged'') pending_bot
    in timeouts s' = (timeouts pending_bot)(timeoutId \<lparr>timeoutId = 0, warnTs = Some ''2.0''\<rparr> := None) \<and>
       timer_fires (timeoutId \<lparr>timeoutId = 0, warnTs = Some ''2.0''\<rparr>) s' = (s', Done) \<and>
       deletionTimers s' = (deletionTimers pending_bot)(make_key ''C1'' ''1.0'' := None) \<and>
       calls s' = calls pending_bot @
         (if truthy (warnTs \<lparr>timeoutId = 0, warnTs = Some ''2.0''\<rparr>)
          then [ChatDelete ''C1'' (warnTs \<lparr>timeoutId = 0, warnTs = Some ''2.0''\<rparr>)] else []) \<and>
       processingReactions s' = processingReactions pending_bot)"
proof -
  have h1: "ev_reaction (example_event ''merged'') = REACTIONS_MERGED"
    by (simp add: REACTIONS_MERGED_def)
  have h2: "ev_item (example_event ''merged'') = MessageItem ''C1'' ''1.0''" by simp
  have h3: "make_key ''C1'' ''1.0'' \<notin> processingReactions pending_bot" by simp
  have h4: "deletionTimers pending_bot (make_key ''C1'' ''1.0'') =
      Some \<lparr>timeoutId = 0, warnTs = Some ''2.0''\<rparr>"
    by (simp add: make_key_def)
  show ?thesis
    using h1 h2 h3 h4
      removal_cancels_armed_timer [OF h1 h2 h3 h4,
        where env = "example_slack (example_message (Some ''B1'') ''Author: <@U1>'')"]
    by blast
qed

lemma added_step:
  assumes "ev_item (added_event w) = MessageItem channel ts"
    and "added_key w = make_key channel ts"
    and "make_key channel ts \<in> processingReactions s"
  shows "case resume_added env w s of
           (s', Done) \<Rightarrow>
             processingReactions s' = processingReactions s - {make_key channel ts} \<and>
             released s' = released s @ [make_key channel ts]
         | (s', Await w') \<Rightarrow>
             added_event w' = added_event w \<and> added_key w' = added_key w \<and>
             processingReactions s' = processingReactions s \<and> released s' = released s"
  using assms
  by (cases w)
     (auto simp: resume_added_def after_history_def after_notice_def after_replies_def
        after_warning_def added_return_def added_throw_def state_ops Let_def
        split: outcome.splits option.splits)

lemma run_added_releases:
  "\<forall>w. snd st = Await w \<longrightarrow> ev_item (added_event w) = MessageItem channel ts \<longrightarrow>
     added_key w = make_key channel ts \<longrightarrow>
     make_key channel ts \<in> processingReactions (fst st) \<longrightarrow>
     processingReactions (run_added env st) =
       processingReactions (fst st) - {make_key channel ts} \<and>
     released (run_added env st) = released (fst st) @ [make_key channel ts]"
proof (induction env st rule: run_added.induct)
  case (1 env s)
  show ?case by simp
next
  case (2 env s w)
  show ?case
  proof (intro allI impI)
    fix w'
    assume "snd (s, Await w) = Await w'"
      and ev: "ev_item (added_event w') = MessageItem channel ts"
      and key: "added_key w' = make_key channel ts"
      and "make_key channel ts \<in> processingReactions (fst (s, Await w))"
    then have w: "w' = w" and g: "make_key channel ts \<in> processingReactions s" by simp_all
    obtain s1 t1 where r: "resume_added env w s = (s1, t1)" by (cases "resume_added env w s")
    show "processingReactions (run_added env (s, Await w)) =
            processingReactions (fst (s, Await w)) - {make_key channel ts} \<and>
          released (run_added env (s, Await w)) =
            released (fst (s, Await w)) @ [make_key channel ts]"
    proof (cases t1)
      case Done
      with r added_step [of w channel ts s env] ev key g w show ?thesis by simp
    next
      case (Await w1)
      with r added_step [of w channel ts s env] ev key g w
      have "added_event w1 = added_event w" "added_key w1 = added_key w"
        "processingReactions s1 = processingReactions s" "released s1 = released s"
        by simp_all
      with 2 r Await ev key g w show ?thesis by simp
    qed
  qed
qed

lemma added_finish_releases:
  "snd (resume_added env w s) = Done \<Longrightarrow>
     added_key w \<notin> processingReactions (fst (resume_added env w s))"
  by (cases w)
     (auto simp: resume_added_def after_history_def after_notice_def after_replies_def
        after_warning_def added_return_def added_throw_def state_ops Let_def
        split: outcome.splits option.splits if_splits item.splits)

text \<open>
  C4. A \<^verbatim>\<open>reaction_added\<close> event on a message is handled with no other handler in
  between. Whatever the platform answers at each call, so on every branch and on every
  exception, the run ends, the key is not in the guard afterwards, the other keys of
  the guard are untouched, and exactly one \<^verbatim>\<open>processingReactions.delete\<close> of the run
  removed something: the key, once (on an exception the outer \<^verbatim>\<open>catch\<close> deletes again
  and finds nothing). With other handlers in between, the stretch that ends the handler
  still leaves the key out of the guard.
\<close>

theorem guard_released_exactly_once:
  assumes "ev_item ev = MessageItem channel ts"
  shows "(let key = make_key channel ts; s' = reaction_added env ev s
          in key \<notin> processingReactions s' \<and>
             processingReactions s' = processingReactions s - {key} \<and>
             released s' = released s @ [key]) \<and>
         (\<forall>w s. snd (resume_added env w s) = Done \<longrightarrow>
            added_key w \<notin> processingReactions (fst (resume_added env w s)))"
proof -
  define key where "key = make_key channel ts"
  define s1 where "s1 = request (ConversationsHistory channel ts) (guard_add key s)"
  have b: "reaction_added_begin ev s = (s1, Await (AwaitHistory ev channel ts key))"
    using assms by (simp add: reaction_added_begin_def key_def s1_def Let_def)
  have "processingReactions (run_added env (s1, Await (AwaitHistory ev channel ts key))) =
          processingReactions s1 - {key} \<and>
        released (run_added env (s1, Await (AwaitHistory ev channel ts key))) =
          released s1 @ [key]"
    using run_added_releases [of "(s1, Await (AwaitHistory ev channel ts key))" channel ts env]
      assms
    by (simp add: key_def s1_def state_ops)
  then show ?thesis
    using added_finish_releases
    by (auto simp: reaction_added_def b Let_def key_def [symmetric] s1_def state_ops)
qed

theorem guard_released_exactly_once_witness:
  "ev_item (example_event ''repeat'') = MessageItem ''C1'' ''1.0'' \<and>
   (let key = make_key ''C1'' ''1.0'';
        s' = reaction_added (example_slack (example_message (Some ''B1'') ''Author: <@U1>''))
               (example_event ''repeat'') pending_bot
    in key \<notin> processingReactions s' \<and>
       processingReactions s' = processingReactions pending_bot - {key} \<and>
       released s' = released pending_bot @ [key]) \<and>
   snd (resume_added (example_slack (example_message (Some ''B1'') ''Author: <@U1>''))
          (AwaitNotice (example_event ''repeat'') ''C1:1.0'') pending_bot) = Done \<and>
   added_key (AwaitNotice (example_event ''repeat'') ''C1:1.0'') \<notin>
     processingReactions
       (fst (resume_added (example_slack (example_message (Some ''B1'') ''Author: <@U1>''))
          (AwaitNotice (example_event ''repeat'') ''C1:1.0'') pending_bot))"
proof -
  have h1: "ev_item (example_event ''repeat'') = MessageItem ''C1'' ''1.0''" by simp
  have h2: "snd (resume_added (example_slack (example_message (Some ''B1'') ''Author: <@U1>''))
      (AwaitNotice (example_event ''repeat'') ''C1:1.0'') pending_bot) = Done"
    by (simp add: resume_added_def after_notice_def added_return_def)
  show ?thesis
    using h1 h2
      guard_released_exactly_once [OF h1,
        where env = "example_slack (example_message (Some ''B1'') ''Author: <@U1>'')"
          and s = pending_bot]
    by blast
qed

lemma delete_replies_closure:
  "\<exists>s' w'. delete_replies clo msgs s = (s', Await w') \<and> cleanup_closure_of w' = clo"
  by (induction msgs) (auto simp: delete_parent_def)

lemma cleanup_step:
  "case resume_cleanup env w s of
     (s', Done) \<Rightarrow> deletionTimers s' (cl_key (cleanup_closure_of w)) = None
   | (s', Await w') \<Rightarrow> cleanup_closure_of w' = cleanup_closure_of w"
proof (cases w)
  case (AwaitThread clo)
  show ?thesis
  proof (cases "on_replies env (calls s)")
    case Rejected
    with AwaitThread show ?thesis
      by (simp add: resume_cleanup_def after_thread_def delete_parent_def)
  next
    case (Resolved messages)
    with AwaitThread show ?thesis
      using delete_replies_closure [of clo "or_nil messages" s]
      by (auto simp: resume_cleanup_def after_thread_def)
  qed
next
  case (AwaitReplyDelete clo rest)
  then show ?thesis
    using delete_replies_closure [of clo rest s]
    by (auto simp: resume_cleanup_def after_reply_delete_def)
qed (auto simp: resume_cleanup_def after_reactions_def after_parent_delete_def
       after_warn_delete_def cleanup_return_def state_ops Let_def split: outcome.splits)

lemma run_cleanup_removes:
  "\<forall>w. snd st = Await w \<longrightarrow>
     deletionTimers (run_cleanup env st) (cl_key (cleanup_closure_of w)) = None"
proof (induction env st rule: run_cleanup.induct)
  case (1 env s)
  show ?case by simp
next
  case (2 env s w)
  obtain s1 t1 where r: "resume_cleanup env w s = (s1, t1)" by (cases "resume_cleanup env w s")
  show ?case
  proof (cases t1)
    case Done
    with r cleanup_step [where env = env and w = w and s = s] show ?thesis by simp
  next
    case (Await w1)
    with r cleanup_step [where env = env and w = w and s = s] 2 show ?thesis by simp
  qed
qed

text \<open>
  C5. The timer callback runs to its end whatever the platform answers, a rejection of
  the reactions query, of the fetch of the replies or of any deletion included, and the
  registry has no entry for the key of the callback afterwards: when the callback is
  started directly, when it is started by its timer firing, and, with other handlers in
  between, after the stretch that ends it.
\<close>

theorem cleanup_always_removes_entry:
  "deletionTimers (cleanup env clo s) (cl_key clo) = None \<and>
   (\<forall>i. timeouts s i = Some clo \<longrightarrow>
      deletionTimers (run_cleanup env (timer_fires i s)) (cl_key clo) = None) \<and>
   (\<forall>w s. snd (resume_cleanup env w s) = Done \<longrightarrow>
      deletionTimers (fst (resume_cleanup env w s)) (cl_key (cleanup_closure_of w)) = None)"
proof (intro conjI allI impI)
  show "deletionTimers (cleanup env clo s) (cl_key clo) = None"
    using run_cleanup_removes [of "cleanup_begin clo s" env]
    by (simp add: cleanup_def cleanup_begin_def)
next
  fix i
  assume "timeouts s i = Some clo"
  then show "deletionTimers (run_cleanup env (timer_fires i s)) (cl_key clo) = None"
    using run_cleanup_removes [of "cleanup_begin clo (clearTimeout i s)" env]
    by (simp add: timer_fires_def cleanup_begin_def)
next
  fix w s
  assume "snd (resume_cleanup env w s) = Done"
  then show "deletionTimers (fst (resume_cleanup env w s)) (cl_key (cleanup_closure_of w)) = None"
    using cleanup_step [where env = env and w = w and s = s]
    by (cases "resume_cleanup env w s") simp
qed

theorem cleanup_always_removes_entry_witness:
  "deletionTimers
     (cleanup ((example_slack (example_message (Some ''B1'') ''Author: <@U1>''))
        \<lparr>on_reactions := \<lambda>_. Rejected\<rparr>) example_closure pending_bot)
     (cl_key example_closure) = None \<and>
   timeouts pending_bot 0 = Some example_closure \<and>
   deletionTimers
     (run_cleanup ((example_slack (example_message (Some ''B1'') ''Author: <@U1>''))
        \<lparr>on_reactions := \<lambda>_. Rejected\<rparr>) (timer_fires 0 pending_bot))
     (cl_key example_closure) = None \<and>
   snd (resume_cleanup ((example_slack (example_message (Some ''B1'') ''Author: <@U1>''))
          \<lparr>on_reactions := \<lambda>_. Rejected\<rparr>) (AwaitWarnDelete example_closure) pending_bot) = Done \<and>
   deletionTimers
     (fst (resume_cleanup ((example_slack (example_message (Some ''B1'') ''Author: <@U1>''))
          \<lparr>on_reactions := \<lambda>_. Rejected\<rparr>) (AwaitWarnDelete example_closure) pending_bot))
     (cl_key (cleanup_closure_of (AwaitWarnDelete example_closure))) = None"
proof -
  have h1: "timeouts pending_bot 0 = Some example_closure" by simp
  have h2: "snd (resume_cleanup ((example_slack (example_message (Some ''B1'') ''Author: <@U1>''))
      \<lparr>on_reactions := \<lambda>_. Rejected\<rparr>) (AwaitWarnDelete example_closure) pending_bot) = Done"
    by (simp add: resume_cleanup_def after_warn_delete_def cleanup_return_def)
  show ?thesis
    using h1 h2
      cleanup_always_removes_entry [where clo = example_closure and s = pending_bot
        and env = "(example_slack (example_message (Some ''B1'') ''Author: <@U1>''))
          \<lparr>on_reactions := \<lambda>_. Rejected\<rparr>"]
    by blast
qed

text \<open>
  C6. The timer callback starts and the reactions it fetches do not include
  \<^verbatim>\<open>merged\<close>. With no other handler in between, its requests are the query of the
  reactions and then, when a warning timestamp was recorded, the deletion of that
  warning, and nothing else: the replies are not fetched, and no deletion is asked for
  the message reacted to or for a reply.
\<close>

theorem cancelled_cleanup_deletes_only_warning:
  assumes "on_reactions env (calls s @ [ReactionsGet (cl_channel clo) (cl_ts clo)]) = Resolved info"
    and "REACTIONS_MERGED \<notin> set (current_reactions info)"
  shows "calls (cleanup env clo s) =
           calls s @ [ReactionsGet (cl_channel clo) (cl_ts clo)] @
           (if truthy (cl_warnTs clo) then [ChatDelete (cl_channel clo) (cl_warnTs clo)] else [])"
  using assms
  by (simp add: cleanup_def cleanup_begin_def resume_cleanup_def after_reactions_def
      after_warn_delete_def cleanup_return_def state_ops Let_def)

theorem cancelled_cleanup_deletes_only_warning_witness:
  "on_reactions (example_slack (example_message (Some ''B1'') ''Author: <@U1>''))
     (calls pending_bot @ [ReactionsGet (cl_channel example_closure) (cl_ts example_closure)]) =
     Resolved None \<and>
   REACTIONS_MERGED \<notin> set (current_reactions None) \<and>
   calls (cleanup (example_slack (example_message (Some ''B1'') ''Author: <@U1>''))
            example_closure pending_bot) =
     calls pending_bot @ [ReactionsGet (cl_channel example_closure) (cl_ts example_closure)] @
     (if truthy (cl_warnTs example_closure)
      then [ChatDelete (cl_channel example_closure) (cl_warnTs example_closure)] else [])"
proof -
  have h1: "on_reactions (example_slack (example_message (Some ''B1'') ''Author: <@U1>''))
      (calls pending_bot @ [ReactionsGet (cl_channel example_closure) (cl_ts example_closure)]) =
      Resolved None"
    by simp
  have h2: "REACTIONS_MERGED \<notin> set (current_reactions None)"
    by (simp add: current_reactions_def or_nil_def)
  show ?thesis
    using h1 h2 cancelled_cleanup_deletes_only_warning [OF h1 h2] by blast
qed

text \<open>
  C7. For the author \<^verbatim>\<open>U123\<close>, every label that \<^verbatim>\<open>toLowerCase\<close> turns into
  \<^verbatim>\<open>medium\<close>, and every URL argument in which the author pattern has no match: the
  author parsed from the text that \<^verbatim>\<open>/pr\<close> posts is \<^verbatim>\<open>U123\<close>, and the label is
  rendered as \<^verbatim>\<open>medium\<close> is. The text starts with the URL, and the parse takes the
  leftmost match, so a URL that holds an author token of its own is excluded: the
  counterexample below has one.
\<close>

theorem author_round_trip_medium:
  assumes "toLowerCase label = ''medium''" and "getAuthorIdFromText prUrl = None"
  shows "getAuthorIdFromText (pr_text prUrl ''U123'' (Some label)) = Some ''U123'' \<and>
         formatComplexity (Some label) = formatComplexity (Some ''medium'')"
proof
  show "getAuthorIdFromText (pr_text prUrl ''U123'' (Some label)) = Some ''U123''"
    using assms(2)
    by (intro author_of_pr_text) (simp_all add: alnum_ci_def is_upper_def is_digit_def)
  have "toLowerCase ''medium'' = ''medium''" by (simp add: toLowerCase_def toLowerChar_def)
  then show "formatComplexity (Some label) = formatComplexity (Some ''medium'')"
    using assms(1) by (simp only: medium_casing)
qed

lemma no_author_in_example_url: "getAuthorIdFromText ''https://github.com/x/y/pull/1'' = None"
  by (simp add: getAuthorIdFromText_def author_here_head toLowerChar_def author_here_def
      toLowerCase_def)

theorem author_round_trip_medium_witness:
  "toLowerCase ''MEDIUM'' = ''medium'' \<and>
   getAuthorIdFromText ''https://github.com/x/y/pull/1'' = None \<and>
   getAuthorIdFromText (pr_text ''https://github.com/x/y/pull/1'' ''U123'' (Some ''MEDIUM'')) =
     Some ''U123'' \<and>
   formatComplexity (Some ''MEDIUM'') = formatComplexity (Some ''medium'')"
proof -
  have h1: "toLowerCase ''MEDIUM'' = ''medium''" by (simp add: toLowerCase_def toLowerChar_def)
  have h2: "getAuthorIdFromText ''https://github.com/x/y/pull/1'' = None"
    by (rule no_author_in_example_url)
  show ?thesis using h1 h2 author_round_trip_medium [OF h1 h2] by blast
qed

theorem author_round_trip_url_counterexample:
  "toLowerCase ''medium'' = ''medium'' \<and>
   getAuthorIdFromText (pr_text ''Author:<@U999>'' ''U123'' (Some ''medium'')) = Some ''U999''"
proof -
  have "author_here (''Author:<@U999>|'' @ rest) = Some ''U999''" for rest
    by (simp add: author_here_def toLowerCase_def toLowerChar_def skip_white_space_plain ws_byte_def
        match_mention_def alnum_ci_def is_upper_def is_lower_def is_digit_def)
  then show ?thesis
    by (simp add: getAuthorIdFromText_def pr_text_def author_here_head toLowerCase_def
        toLowerChar_def)
qed

text \<open>What the notification of a comment mentions.\<close>

lemma COMMENT_OWN_mentions:
  "mentions authorId (COMMENT_OWN authorId reviewerId) \<and>
   mentions reviewerId (COMMENT_OWN authorId reviewerId)"
proof
  have "COMMENT_OWN authorId reviewerId =
      [] @ (''<@'' @ authorId @ ''>'') @
      ('', a comment or two was left on your PR by <@'' @ reviewerId @ ''>.'')"
    by (simp add: COMMENT_OWN_def)
  then show "mentions authorId (COMMENT_OWN authorId reviewerId)"
    unfolding mentions_def sublist_def by blast
  have "COMMENT_OWN authorId reviewerId =
      (''<@'' @ authorId @ ''>, a comment or two was left on your PR by '') @
      (''<@'' @ reviewerId @ ''>'') @ ''.''"
    by (simp add: COMMENT_OWN_def)
  then show "mentions reviewerId (COMMENT_OWN authorId reviewerId)"
    unfolding mentions_def sublist_def by blast
qed

lemma after_notice_calls:
  "calls (fst (after_notice ev key r s)) = calls s \<and> snd (after_notice ev key r s) = Done"
  by (auto simp: after_notice_def added_return_def added_throw_def state_ops Let_def
      split: outcome.splits item.splits)

text \<open>
  C8. A \<^verbatim>\<open>speech_balloon\<close> reaction is handled, with no other handler in between, on
  a message that carries the identity of the bot and whose text holds an author token
  with no match of the author pattern before it. The handler fetches the history and
  posts one reply in the thread, the text of \<^verbatim>\<open>COMMENT_OWN\<close>, which mentions the author
  of the token and the user who reacted. An earlier match of the pattern would be parsed
  instead: the counterexample below has one, in the URL of the announcement.
\<close>

theorem comment_reply_mentions_author_and_reviewer:
  assumes "ev_reaction ev = REACTIONS_COMMENT" and "ev_item ev = MessageItem channel ts"
    and "on_history env (calls s @ [ConversationsHistory channel ts]) = Resolved (Some (m # ms))"
    and "msg_bot_id m = myBotId s"
    and "msg_text m = Some (pre @ ''Author: <@'' @ author @ ''>'' @ post)"
    and "getAuthorIdFromText pre = None"
    and "author \<noteq> []" and "\<forall>c \<in> set author. alnum_ci c"
  shows "calls (reaction_added env ev s) =
           calls s @ [ConversationsHistory channel ts,
                      ChatPostMessage channel ts (COMMENT_OWN author (ev_user ev))] \<and>
         mentions author (COMMENT_OWN author (ev_user ev)) \<and>
         mentions (ev_user ev) (COMMENT_OWN author (ev_user ev))"
proof -
  define key where "key = make_key channel ts"
  define s1 where "s1 = request (ConversationsHistory channel ts) (guard_add key s)"
  define s2 where "s2 = request (ChatPostMessage channel ts (COMMENT_OWN author (ev_user ev))) s1"
  have b: "reaction_added_begin ev s = (s1, Await (AwaitHistory ev channel ts key))"
    using assms(2) by (simp add: reaction_added_begin_def key_def s1_def Let_def)
  have a: "getAuthorIdFromText (or_empty (msg_text m)) = Some author"
    using assms(5) first_author_token [OF assms(7,8,6), of post] by (simp add: or_empty_def)
  have h: "resume_added env (AwaitHistory ev channel ts key) s1 = (s2, Await (AwaitNotice ev key))"
    using assms(1,3,4,7) a
    by (simp add: resume_added_def after_history_def first_message_def if_truthy_def s1_def s2_def
        state_ops)
  have "calls (fst (resume_added env (AwaitNotice ev key) s2)) = calls s2"
    and "snd (resume_added env (AwaitNotice ev key) s2) = Done"
    using after_notice_calls [of ev key _ s2] by (simp_all add: resume_added_def)
  then have "calls (reaction_added env ev s) = calls s2"
    by (cases "resume_added env (AwaitNotice ev key) s2") (simp add: reaction_added_def b h)
  then show ?thesis
    using COMMENT_OWN_mentions [of author "ev_user ev"]
    by (simp add: s2_def s1_def state_ops)
qed

theorem comment_reply_mentions_author_and_reviewer_witness:
  "ev_reaction (example_event ''speech_balloon'') = REACTIONS_COMMENT \<and>
   ev_item (example_event ''speech_balloon'') = MessageItem ''C1'' ''1.0'' \<and>
   msg_bot_id (example_message (Some ''B1'') (''Link: <u|Link to PR on GitHub> '' @ ''Author: <@'' @ ''U1'' @ ''>'' @ '' Complexity: :ez:'')) =
     myBotId pending_bot \<and>
   getAuthorIdFromText ''Link: <u|Link to PR on GitHub> '' = None \<and>
   calls (reaction_added
     (example_slack (example_message (Some ''B1'') (''Link: <u|Link to PR on GitHub> '' @ ''Author: <@'' @ ''U1'' @ ''>'' @ '' Complexity: :ez:'')))
     (example_event ''speech_balloon'') pending_bot) =
   calls pending_bot @
     [ConversationsHistory ''C1'' ''1.0'',
      ChatPostMessage ''C1'' ''1.0'' (COMMENT_OWN ''U1'' (ev_user (example_event ''speech_balloon'')))] \<and>
   mentions ''U1'' (COMMENT_OWN ''U1'' (ev_user (example_event ''speech_balloon''))) \<and>
   mentions (ev_user (example_event ''speech_balloon''))
     (COMMENT_OWN ''U1'' (ev_user (example_event ''speech_balloon'')))"
proof -
  let ?m = "example_message (Some ''B1'') (''Link: <u|Link to PR on GitHub> '' @ ''Author: <@'' @ ''U1'' @ ''>'' @ '' Complexity: :ez:'')"
  have h1: "ev_reaction (example_event ''speech_balloon'') = REACTIONS_COMMENT"
    by (simp add: REACTIONS_COMMENT_def)
  have h2: "ev_item (example_event ''speech_balloon'') = MessageItem ''C1'' ''1.0''" by simp
  have h3: "on_history (example_slack ?m) (calls pending_bot @ [ConversationsHistory ''C1'' ''1.0'']) =
      Resolved (Some (?m # []))"
    by simp
  have h4: "msg_bot_id ?m = myBotId pending_bot" by simp
  have h5: "msg_text ?m = Some (''Link: <u|Link to PR on GitHub> '' @ ''Author: <@'' @ ''U1'' @ ''>'' @ '' Complexity: :ez:'')"
    by simp
  have h6: "getAuthorIdFromText ''Link: <u|Link to PR on GitHub> '' = None"
    by (simp add: getAuthorIdFromText_def author_here_head toLowerChar_def author_here_def
        toLowerCase_def)
  have h7: "''U1'' \<noteq> []" by simp
  have h8: "\<forall>c \<in> set ''U1''. alnum_ci c"
    by (simp add: alnum_ci_def is_upper_def is_digit_def)
  show ?thesis
    using h1 h2 h4 h6 comment_reply_mentions_author_and_reviewer [OF h1 h2 h3 h4 h5 h6 h7 h8]
    by blast
qed


lemma author_here_hijack: "author_here (''Author:<@U9>|'' @ rest) = Some ''U9''"
  by (simp add: author_here_def toLowerCase_def toLowerChar_def skip_white_space_plain ws_byte_def
      match_mention_def alnum_ci_def is_upper_def is_lower_def is_digit_def)

theorem comment_reply_earlier_token_counterexample:
  "sublist ''Author: <@U1>'' (pr_text ''Author:<@U9>'' ''U1'' None) \<and>
   calls (reaction_added
     (example_slack (example_message (Some ''B1'') (pr_text ''Author:<@U9>'' ''U1'' None)))
     (example_event ''speech_balloon'') (initial\<lparr>myBotId := Some ''B1''\<rparr>)) =
     [ConversationsHistory ''C1'' ''1.0'',
      ChatPostMessage ''C1'' ''1.0'' ''<@U9>, a comment or two was left on your PR by <@U2>.''] \<and>
   \<not> mentions ''U1'' ''<@U9>, a comment or two was left on your PR by <@U2>.''"
proof (intro conjI)
  have "pr_text ''Author:<@U9>'' ''U1'' None =
      (''Link: <Author:<@U9>|Link to PR on GitHub>'' @ [CHR 0x0A]) @ ''Author: <@U1>'' @
      ([CHR 0x0A] @ ''Complexity: '' @ UNKNOWN_LABEL)"
    by (simp add: pr_text_def formatComplexity_def if_truthy_def)
  then show "sublist ''Author: <@U1>'' (pr_text ''Author:<@U9>'' ''U1'' None)"
    unfolding sublist_def by blast
next
  have "getAuthorIdFromText (pr_text ''Author:<@U9>'' ''U1'' None) = Some ''U9''"
    using author_here_hijack
    by (simp add: getAuthorIdFromText_def pr_text_def author_here_head toLowerChar_def)
  then show "calls (reaction_added
     (example_slack (example_message (Some ''B1'') (pr_text ''Author:<@U9>'' ''U1'' None)))
     (example_event ''speech_balloon'') (initial\<lparr>myBotId := Some ''B1''\<rparr>)) =
     [ConversationsHistory ''C1'' ''1.0'',
      ChatPostMessage ''C1'' ''1.0'' ''<@U9>, a comment or two was left on your PR by <@U2>.'']"
    by (simp add: reaction_added_def reaction_added_begin_def resume_added_def after_history_def
        after_notice_def added_return_def first_message_def or_empty_def if_truthy_def
        COMMENT_OWN_def REACTIONS_COMMENT_def make_key_def initial_def state_ops Let_def)
next
  show "\<not> mentions ''U1'' ''<@U9>, a comment or two was left on your PR by <@U2>.''"
    by (simp add: mentions_def sublist_code)
qed

text \<open>
  C9. The process exits with code 1 exactly when one of the two variables is falsy in the
  environment it was started with, which an absent variable is (and one set to the
  empty string); when both are set and not empty the server runs, from the initial state
  and the outcome of the identity call.
\<close>

theorem start_requires_both_secrets:
  "(start env auth = Exited 1) =
     (\<not> truthy (env ''SLACK_BOT_TOKEN'') \<or> \<not> truthy (env ''SLACK_SIGNING_SECRET'')) \<and>
   (env ''SLACK_BOT_TOKEN'' = None \<or> env ''SLACK_SIGNING_SECRET'' = None
      \<longrightarrow> start env auth = Exited 1) \<and>
   (truthy (env ''SLACK_BOT_TOKEN'') \<and> truthy (env ''SLACK_SIGNING_SECRET'')
      \<longrightarrow> start env auth = Running (identify auth initial))"
  by (auto simp: start_def truthy_def)

theorem start_requires_both_secrets_witness:
  "[''SLACK_BOT_TOKEN'' \<mapsto> ''xoxb-1''] ''SLACK_SIGNING_SECRET'' = None \<and>
   start [''SLACK_BOT_TOKEN'' \<mapsto> ''xoxb-1''] (Resolved (Some ''B1'')) = Exited 1 \<and>
   truthy ([''SLACK_BOT_TOKEN'' \<mapsto> ''xoxb-1'', ''SLACK_SIGNING_SECRET'' \<mapsto> ''s3cr3t'']
     ''SLACK_BOT_TOKEN'') \<and>
   truthy ([''SLACK_BOT_TOKEN'' \<mapsto> ''xoxb-1'', ''SLACK_SIGNING_SECRET'' \<mapsto> ''s3cr3t'']
     ''SLACK_SIGNING_SECRET'') \<and>
   start [''SLACK_BOT_TOKEN'' \<mapsto> ''xoxb-1'', ''SLACK_SIGNING_SECRET'' \<mapsto> ''s3cr3t'']
     (Resolved (Some ''B1'')) = Running (identify (Resolved (Some ''B1'')) initial)"
proof -
  have h1: "[''SLACK_BOT_TOKEN'' \<mapsto> ''xoxb-1''] ''SLACK_SIGNING_SECRET'' = None" by simp
  have h2: "truthy ([''SLACK_BOT_TOKEN'' \<mapsto> ''xoxb-1'', ''SLACK_SIGNING_SECRET'' \<mapsto> ''s3cr3t'']
      ''SLACK_BOT_TOKEN'')"
    by (simp add: truthy_def)
  have h3: "truthy ([''SLACK_BOT_TOKEN'' \<mapsto> ''xoxb-1'', ''SLACK_SIGNING_SECRET'' \<mapsto> ''s3cr3t'']
      ''SLACK_SIGNING_SECRET'')"
    by (simp add: truthy_def)
  show ?thesis
    using h1 h2 h3
      start_requires_both_secrets [where env = "[''SLACK_BOT_TOKEN'' \<mapsto> ''xoxb-1'']"
        and auth = "Resolved (Some ''B1'')"]
      start_requires_both_secrets [where
        env = "[''SLACK_BOT_TOKEN'' \<mapsto> ''xoxb-1'', ''SLACK_SIGNING_SECRET'' \<mapsto> ''s3cr3t'']"
        and auth = "Resolved (Some ''B1'')"]
    by blast
qed

text \<open>The identity check of \<^verbatim>\<open>reaction_added\<close>: no message, or a message whose
  \<^verbatim>\<open>bot_id\<close> differs from \<^verbatim>\<open>myBotId\<close>, ends the handler with no request and no timer.\<close>

lemma foreign_message_ignored:
  assumes "first_message messages = None \<or>
      (\<exists>m. first_message messages = Some m \<and> msg_bot_id m \<noteq> myBotId s)"
  shows "after_history ev channel ts key (Resolved messages) s = added_return key s"
  using assms by (auto simp: after_history_def)

text \<open>
  C10. After an identity call that failed, \<^verbatim>\<open>myBotId\<close> is undefined, and so is the
  \<^verbatim>\<open>bot_id\<close> of a message written by a person: the check compares the two and lets
  the message pass. A \<^verbatim>\<open>merged\<close> reaction on such a message is honored: the warning
  is posted and the deletion is scheduled.
\<close>

theorem unidentified_bot_honors_foreign_message:
  "myBotId (identify Rejected initial) = None \<and>
   msg_bot_id (example_message None ''see thread'') = None \<and>
   (let s' = reaction_added (example_slack (example_message None ''see thread''))
               (example_event ''merged'') (identify Rejected initial)
    in calls s' =
         [ConversationsHistory ''C1'' ''1.0'', ChatPostMessage ''C1'' ''1.0'' MERGED_WARNING] \<and>
       deletionTimers s' ''C1:1.0'' = Some \<lparr>timeoutId = 0, warnTs = Some ''2.0''\<rparr> \<and>
       timeouts s' 0 = Some example_closure)"
proof -
  have "getAuthorIdFromText ''see thread'' = None"
    by (simp add: getAuthorIdFromText_def author_here_head toLowerChar_def author_here_def
        toLowerCase_def)
  then show ?thesis
    by (simp add: identify_def initial_def reaction_added_def
        reaction_added_begin_def resume_added_def after_history_def after_warning_def
        added_return_def first_message_def or_empty_def if_truthy_def reaction_names
        make_key_def state_ops Let_def)
qed

end
